theory Spec2Isabelle
  imports Main
begin

section \<open>Expressions of the query library\<close>

text \<open>
  The slicer builds its queries out of the expression objects of a query-building library:
  fields, intervals, arithmetic, function calls and criteria. The operators the source
  applies to them (\<open>-\<close>, \<open>/\<close>, \<open>==\<close>, \<open>&\<close>, \<open>as_\<close>, \<open>for_\<close>) build larger expressions and
  compute nothing, so an expression is a tree. A field belongs to a table, which is a named
  table or a query used as a sub-query; queries are objects of a store and are named by
  their address.
\<close>

type_synonym addr = nat

datatype tbl = Table string | SubQuery addr

datatype interval_unit = Weeks | Quarters

datatype sqlterm =
    Field string "tbl option"
  | Interval interval_unit nat
  | Lit int
  | TAdd sqlterm sqlterm
  | TSub sqlterm sqlterm
  | TDiv sqlterm sqlterm
  | TMod sqlterm sqlterm
  | Func string "sqlterm list"
  | TEq sqlterm sqlterm
  | TAnd sqlterm sqlterm
  | Alias sqlterm string

text \<open>\<open>term.as_(key)\<close> names an expression; naming a named expression renames it.\<close>

fun as_alias :: "sqlterm \<Rightarrow> string \<Rightarrow> sqlterm" where
  "as_alias (Alias t old) key = Alias t key"
| "as_alias t key = Alias t key"

text \<open>\<open>term.alias\<close>: the name of an expression, when it has one.\<close>

fun term_alias :: "sqlterm \<Rightarrow> string option" where
  "term_alias (Alias t key) = Some key"
| "term_alias t = None"

text \<open>The exceptions that the modelled code raises.\<close>

datatype error = KeyError string | ValueError | TypeError | AttributeError

text \<open>
  \<open>term.for_(table)\<close> replaces the table of every field of the expression. Fields,
  arithmetic expressions, function calls and criteria have the method and pass the call
  on to their parts, the left one before the right one. A literal value and an interval
  have no such method: the call that reaches one raises an \<open>AttributeError\<close>.
\<close>

fun for_table :: "sqlterm \<Rightarrow> tbl \<Rightarrow> error + sqlterm"
  and for_tables :: "sqlterm list \<Rightarrow> tbl \<Rightarrow> error + sqlterm list" where
  "for_table (Field name t) table = Inr (Field name (Some table))"
| "for_table (Interval u n) table = Inl AttributeError"
| "for_table (Lit v) table = Inl AttributeError"
| "for_table (TAdd a b) table =
     (case for_table a table of Inl e \<Rightarrow> Inl e | Inr a' \<Rightarrow>
      (case for_table b table of Inl e \<Rightarrow> Inl e | Inr b' \<Rightarrow> Inr (TAdd a' b')))"
| "for_table (TSub a b) table =
     (case for_table a table of Inl e \<Rightarrow> Inl e | Inr a' \<Rightarrow>
      (case for_table b table of Inl e \<Rightarrow> Inl e | Inr b' \<Rightarrow> Inr (TSub a' b')))"
| "for_table (TDiv a b) table =
     (case for_table a table of Inl e \<Rightarrow> Inl e | Inr a' \<Rightarrow>
      (case for_table b table of Inl e \<Rightarrow> Inl e | Inr b' \<Rightarrow> Inr (TDiv a' b')))"
| "for_table (TMod a b) table =
     (case for_table a table of Inl e \<Rightarrow> Inl e | Inr a' \<Rightarrow>
      (case for_table b table of Inl e \<Rightarrow> Inl e | Inr b' \<Rightarrow> Inr (TMod a' b')))"
| "for_table (Func f args) table =
     (case for_tables args table of Inl e \<Rightarrow> Inl e | Inr args' \<Rightarrow> Inr (Func f args'))"
| "for_table (TEq a b) table =
     (case for_table a table of Inl e \<Rightarrow> Inl e | Inr a' \<Rightarrow>
      (case for_table b table of Inl e \<Rightarrow> Inl e | Inr b' \<Rightarrow> Inr (TEq a' b')))"
| "for_table (TAnd a b) table =
     (case for_table a table of Inl e \<Rightarrow> Inl e | Inr a' \<Rightarrow>
      (case for_table b table of Inl e \<Rightarrow> Inl e | Inr b' \<Rightarrow> Inr (TAnd a' b')))"
| "for_table (Alias a key) table =
     (case for_table a table of Inl e \<Rightarrow> Inl e | Inr a' \<Rightarrow> Inr (Alias a' key))"
| "for_tables [] table = Inr []"
| "for_tables (a # rest) table =
     (case for_table a table of Inl e \<Rightarrow> Inl e | Inr a' \<Rightarrow>
      (case for_tables rest table of Inl e \<Rightarrow> Inl e | Inr rest' \<Rightarrow> Inr (a' # rest')))"

text \<open>\<open>query.field(key)\<close>: the field \<open>key\<close> of the query at address \<open>query\<close>.\<close>

definition field :: "addr \<Rightarrow> string \<Rightarrow> sqlterm" where
  "field query key = Field key (Some (SubQuery query))"

section \<open>Reference mappers (queries.py)\<close>

type_synonym mapper = "sqlterm \<Rightarrow> sqlterm \<Rightarrow> sqlterm"

definition reference_criterion :: "string \<rightharpoonup> mapper" where
  "reference_criterion = map_of
     [(''yoy'', \<lambda>key join_key. TEq key (TSub join_key (Interval Weeks 52))),
      (''qoq'', \<lambda>key join_key. TEq key (TSub join_key (Interval Quarters 1))),
      (''mom'', \<lambda>key join_key. TEq key (TSub join_key (Interval Weeks 4))),
      (''wow'', \<lambda>key join_key. TEq key (TSub join_key (Interval Weeks 1)))]"

definition reference_field :: "string \<rightharpoonup> mapper" where
  "reference_field = map_of
     [(''d'', \<lambda>field join_field. TSub field join_field),
      (''p'', \<lambda>field join_field. TDiv (TSub field join_field) join_field)]"

text \<open>\<open>s.split(sep)\<close> for a one-character separator: every occurrence splits, empty
  pieces are kept, and the result is never empty.\<close>

fun split :: "char \<Rightarrow> string \<Rightarrow> string list" where
  "split sep [] = [[]]"
| "split sep (c # cs) =
     (if c = sep then [] # split sep cs
      else (case split sep cs of
              [] \<Rightarrow> [[c]]
            | w # ws \<Rightarrow> (c # w) # ws))"

text \<open>
  \<open>_get_reference_mappers\<close>: the key is split at the underscores; the first piece selects
  the criterion (a missing key raises), the second piece, when there is one, selects the
  field function (a missing key raises), and without a second piece the field function
  returns the joined field.
\<close>

definition get_reference_mappers :: "string \<Rightarrow> error + (mapper \<times> mapper)" where
  "get_reference_mappers reference_key =
     (case split (CHR ''_'') reference_key of
        [] \<Rightarrow> Inl ValueError
      | reference_key' # optional_parts \<Rightarrow>
          (case reference_criterion reference_key' of
             None \<Rightarrow> Inl (KeyError reference_key')
           | Some criterion_f \<Rightarrow>
               (case optional_parts of
                  [] \<Rightarrow> Inr (criterion_f, \<lambda>field join_field. join_field)
                | part # _ \<Rightarrow>
                    (case reference_field part of
                       None \<Rightarrow> Inl (KeyError part)
                     | Some field_f \<Rightarrow> Inr (criterion_f, field_f)))))"

text \<open>
  A dimension of a request is an expression object. The source tells dimensions apart by
  object identity (\<open>is not\<close>), so a dimension carries the identity of its object next to the
  expression.
\<close>

type_synonym dim_obj = "nat \<times> sqlterm"

abbreviation oid :: "dim_obj \<Rightarrow> nat" where
  "oid d \<equiv> fst d"

abbreviation expr :: "dim_obj \<Rightarrow> sqlterm" where
  "expr d \<equiv> snd d"

text \<open>
  The loop of \<open>_build_reference_join_criterion\<close> over \<open>dimensions.values()\<close>: every
  dimension that is another object than the compared one adds an equality between its
  expression and the same expression for the reference query. The first \<open>for_\<close> that
  raises ends the loop with its error.
\<close>

fun compare_other_dimensions ::
  "addr \<Rightarrow> dim_obj \<Rightarrow> sqlterm \<Rightarrow> dim_obj list \<Rightarrow> error + sqlterm" where
  "compare_other_dimensions query compared_dimension cx [] = Inr cx"
| "compare_other_dimensions query compared_dimension cx (dimension # rest) =
     (if oid dimension \<noteq> oid compared_dimension
      then (case for_table (expr dimension) (SubQuery query) of
              Inl e \<Rightarrow> Inl e
            | Inr joined \<Rightarrow>
                compare_other_dimensions query compared_dimension
                  (TAnd cx (TEq (expr dimension) joined)) rest)
      else compare_other_dimensions query compared_dimension cx rest)"

text \<open>
  \<open>_build_reference_join_criterion\<close>: \<open>dimensions\<close> is the ordered mapping of the request,
  in iteration order; looking up a key that is not there raises.
\<close>

definition build_reference_join_criterion ::
  "addr \<Rightarrow> (string \<times> dim_obj) list \<Rightarrow> mapper \<Rightarrow> string \<Rightarrow> error + sqlterm" where
  "build_reference_join_criterion query dimensions criterion_f dimension_key =
     (case map_of dimensions dimension_key of
        None \<Rightarrow> Inl (KeyError dimension_key)
      | Some compared_dimension \<Rightarrow>
          compare_other_dimensions query compared_dimension
            (criterion_f (expr compared_dimension) (field query dimension_key))
            (map snd dimensions))"

section \<open>Queries as objects of a store\<close>

text \<open>
  A query is an object with one list per clause. The builder methods of the library
  (\<open>join(...).on(...)\<close>, \<open>select\<close>, \<open>groupby\<close>, \<open>rollup\<close>, \<open>orderby\<close>, \<open>where\<close>,
  \<open>having\<close>) add to the clause lists of the query they are called on and return it. The
  model keeps the query objects in a store and performs each builder call in place at the
  address of the receiver, so that two names for one query object would see each other's
  updates: the sharing that \<open>copy.deepcopy\<close> is there to prevent is expressible.
\<close>

datatype JoinType = inner | left | right | outer

record query =
  q_from :: tbl
  q_joins :: "(tbl \<times> JoinType option \<times> sqlterm) list"
  q_selects :: "sqlterm list"
  q_groupbys :: "sqlterm list"
  q_rollups :: "sqlterm list"
  q_orderbys :: "sqlterm list"
  q_wheres :: "sqlterm list"
  q_havings :: "sqlterm list"

type_synonym store = "query list"

text \<open>\<open>Query.from_(table)\<close> creates a query object with empty clauses.\<close>

definition from_table :: "store \<Rightarrow> tbl \<Rightarrow> store \<times> addr" where
  "from_table h table =
     (h @ [\<lparr>q_from = table, q_joins = [], q_selects = [], q_groupbys = [], q_rollups = [],
            q_orderbys = [], q_wheres = [], q_havings = []\<rparr>], length h)"

definition update :: "store \<Rightarrow> addr \<Rightarrow> (query \<Rightarrow> query) \<Rightarrow> store" where
  "update h a f = (if a < length h then h[a := f (h ! a)] else h)"

definition qjoin :: "store \<Rightarrow> addr \<Rightarrow> tbl \<Rightarrow> JoinType option \<Rightarrow> sqlterm \<Rightarrow> store" where
  "qjoin h a table how criterion =
     update h a (\<lambda>q. q\<lparr>q_joins := q_joins q @ [(table, how, criterion)]\<rparr>)"

definition qselect :: "store \<Rightarrow> addr \<Rightarrow> sqlterm list \<Rightarrow> store" where
  "qselect h a terms = update h a (\<lambda>q. q\<lparr>q_selects := q_selects q @ terms\<rparr>)"

definition qgroupby :: "store \<Rightarrow> addr \<Rightarrow> sqlterm list \<Rightarrow> store" where
  "qgroupby h a terms = update h a (\<lambda>q. q\<lparr>q_groupbys := q_groupbys q @ terms\<rparr>)"

definition qrollup :: "store \<Rightarrow> addr \<Rightarrow> sqlterm list \<Rightarrow> store" where
  "qrollup h a terms = update h a (\<lambda>q. q\<lparr>q_rollups := q_rollups q @ terms\<rparr>)"

definition qorderby :: "store \<Rightarrow> addr \<Rightarrow> sqlterm list \<Rightarrow> store" where
  "qorderby h a terms = update h a (\<lambda>q. q\<lparr>q_orderbys := q_orderbys q @ terms\<rparr>)"

definition qwhere :: "store \<Rightarrow> addr \<Rightarrow> sqlterm \<Rightarrow> store" where
  "qwhere h a criterion = update h a (\<lambda>q. q\<lparr>q_wheres := q_wheres q @ [criterion]\<rparr>)"

definition qhaving :: "store \<Rightarrow> addr \<Rightarrow> sqlterm \<Rightarrow> store" where
  "qhaving h a criterion = update h a (\<lambda>q. q\<lparr>q_havings := q_havings q @ [criterion]\<rparr>)"

text \<open>
  \<open>copy.deepcopy(query)\<close> returns a copy of everything reachable from the query, on fresh
  objects, with the references inside the copy redirected to the copies. The model
  duplicates every query object of the store: the duplicate of the object at \<open>a\<close> is put at
  \<open>a + length h\<close>, and every sub-query address inside a duplicate is moved by \<open>length h\<close>.
  The duplicate of \<open>query\<close> is the copy; duplicates of objects that \<open>query\<close> does not reach
  are garbage that nothing refers to.
\<close>

fun shift_tbl :: "nat \<Rightarrow> tbl \<Rightarrow> tbl" where
  "shift_tbl n (Table name) = Table name"
| "shift_tbl n (SubQuery a) = SubQuery (a + n)"

fun shift_term :: "nat \<Rightarrow> sqlterm \<Rightarrow> sqlterm" where
  "shift_term n (Field name t) = Field name (map_option (shift_tbl n) t)"
| "shift_term n (Interval u k) = Interval u k"
| "shift_term n (Lit v) = Lit v"
| "shift_term n (TAdd a b) = TAdd (shift_term n a) (shift_term n b)"
| "shift_term n (TSub a b) = TSub (shift_term n a) (shift_term n b)"
| "shift_term n (TDiv a b) = TDiv (shift_term n a) (shift_term n b)"
| "shift_term n (TMod a b) = TMod (shift_term n a) (shift_term n b)"
| "shift_term n (Func f args) = Func f (map (shift_term n) args)"
| "shift_term n (TEq a b) = TEq (shift_term n a) (shift_term n b)"
| "shift_term n (TAnd a b) = TAnd (shift_term n a) (shift_term n b)"
| "shift_term n (Alias a key) = Alias (shift_term n a) key"

definition shift_query :: "nat \<Rightarrow> query \<Rightarrow> query" where
  "shift_query n q =
     \<lparr>q_from = shift_tbl n (q_from q),
      q_joins = map (\<lambda>(table, how, criterion). (shift_tbl n table, how, shift_term n criterion))
                    (q_joins q),
      q_selects = map (shift_term n) (q_selects q),
      q_groupbys = map (shift_term n) (q_groupbys q),
      q_rollups = map (shift_term n) (q_rollups q),
      q_orderbys = map (shift_term n) (q_orderbys q),
      q_wheres = map (shift_term n) (q_wheres q),
      q_havings = map (shift_term n) (q_havings q)\<rparr>"

definition deepcopy :: "store \<Rightarrow> addr \<Rightarrow> store \<times> addr" where
  "deepcopy h query = (h @ map (shift_query (length h)) h, query + length h)"

section \<open>Building the query (queries.py)\<close>

text \<open>
  One pass of the loop over \<open>references.items()\<close> in \<open>_build_query\<close>. \<open>metrics\<close> and
  \<open>dimensions\<close> are the mappings of the request in iteration order. The join of the
  reference query gives no \<open>how\<close>, so the library's default applies (\<open>None\<close>).
\<close>

definition add_reference ::
  "store \<Rightarrow> addr \<Rightarrow> (string \<times> sqlterm) list \<Rightarrow> (string \<times> dim_obj) list \<Rightarrow>
   string \<times> string \<Rightarrow> error + store" where
  "add_reference h query metrics dimensions ref =
     (case ref of (reference_key, dimension_key) \<Rightarrow>
      (case get_reference_mappers reference_key of
         Inl e \<Rightarrow> Inl e
       | Inr (criterion_f, field_f) \<Rightarrow>
           (case deepcopy h query of (h1, reference_query) \<Rightarrow>
            (case build_reference_join_criterion reference_query dimensions criterion_f
                    dimension_key of
               Inl e \<Rightarrow> Inl e
             | Inr cx \<Rightarrow>
                 (let h2 = qjoin h1 query (SubQuery reference_query) None cx;
                      h3 = (if dimensions \<noteq> []
                            then qselect h2 query
                                   (map (\<lambda>(key, dimension).
                                           as_alias (field reference_query key)
                                                    (key @ ''_'' @ reference_key))
                                        dimensions)
                            else h2);
                      h4 = qselect h3 query
                             (map (\<lambda>(key, metric).
                                     as_alias (field_f metric (field reference_query key))
                                              (key @ ''_'' @ reference_key))
                                  metrics)
                  in Inr h4)))))"

fun add_references ::
  "store \<Rightarrow> addr \<Rightarrow> (string \<times> sqlterm) list \<Rightarrow> (string \<times> dim_obj) list \<Rightarrow>
   (string \<times> string) list \<Rightarrow> error + store" where
  "add_references h query metrics dimensions [] = Inr h"
| "add_references h query metrics dimensions (ref # refs) =
     (case add_reference h query metrics dimensions ref of
        Inl e \<Rightarrow> Inl e
      | Inr h' \<Rightarrow> add_references h' query metrics dimensions refs)"

text \<open>The dimension expressions outside and inside the rollup, named by their keys.\<close>

definition dx_of :: "(string \<times> dim_obj) list \<Rightarrow> string list \<Rightarrow> sqlterm list" where
  "dx_of dimensions rollup =
     map (\<lambda>(key, dimension). as_alias (expr dimension) key)
         (filter (\<lambda>(key, dimension). key \<notin> set rollup) dimensions)"

definition rx_of :: "(string \<times> dim_obj) list \<Rightarrow> string list \<Rightarrow> sqlterm list" where
  "rx_of dimensions rollup =
     map (\<lambda>(key, dimension). as_alias (expr dimension) key)
         (filter (\<lambda>(key, dimension). key \<in> set rollup) dimensions)"

text \<open>The part of \<open>_build_query\<close> before the loop over the references.\<close>

definition base_query ::
  "string \<Rightarrow> (string \<times> sqlterm \<times> JoinType) list \<Rightarrow> (string \<times> sqlterm) list \<Rightarrow>
   (string \<times> dim_obj) list \<Rightarrow> string list \<Rightarrow> store \<times> addr" where
  "base_query table joins metrics dimensions rollup =
     (case from_table [] (Table table) of (h0, query) \<Rightarrow>
      (let h1 = foldl (\<lambda>h (join_table, criterion, join_type).
                         qjoin h query (Table join_table) (Some join_type) criterion)
                      h0 joins;
           dx = dx_of dimensions rollup;
           rx = rx_of dimensions rollup;
           h2 = (if dx \<noteq> [] then qgroupby (qselect h1 query dx) query dx else h1);
           h3 = (if rx \<noteq> [] then qrollup (qselect h2 query rx) query rx else h2);
           mx = map (\<lambda>(key, metric). as_alias metric key) metrics
       in (qselect h3 query mx, query)))"

text \<open>The part of \<open>_build_query\<close> after the loop: ordering, then the filters.\<close>

definition order_and_filter ::
  "store \<Rightarrow> addr \<Rightarrow> (string \<times> dim_obj) list \<Rightarrow> sqlterm list \<Rightarrow> sqlterm list \<Rightarrow>
   string list \<Rightarrow> store" where
  "order_and_filter h query dimensions mfilters dfilters rollup =
     (let dx = dx_of dimensions rollup;
          rx = rx_of dimensions rollup;
          h1 = (if dx \<noteq> [] then qorderby h query dx else h);
          h2 = (if rx \<noteq> [] then qorderby h1 query rx else h1);
          h3 = (if dfilters \<noteq> [] then foldl (\<lambda>h dfx. qwhere h query dfx) h2 dfilters else h2);
          h4 = (if mfilters \<noteq> [] then foldl (\<lambda>h mfx. qhaving h query mfx) h3 mfilters else h3)
      in h4)"

text \<open>
  \<open>_build_query\<close>. It returns the store with the query objects it created and the address
  of the compiled query, or the error that a reference raised.
\<close>

definition build_query ::
  "string \<Rightarrow> (string \<times> sqlterm \<times> JoinType) list \<Rightarrow> (string \<times> sqlterm) list \<Rightarrow>
   (string \<times> dim_obj) list \<Rightarrow> sqlterm list \<Rightarrow> sqlterm list \<Rightarrow>
   (string \<times> string) list \<Rightarrow> string list \<Rightarrow> error + (store \<times> addr)" where
  "build_query table joins metrics dimensions mfilters dfilters references rollup =
     (case base_query table joins metrics dimensions rollup of (h, query) \<Rightarrow>
      (case add_references h query metrics dimensions references of
         Inl e \<Rightarrow> Inl e
       | Inr h' \<Rightarrow>
           Inr (order_and_filter h' query dimensions mfilters dfilters rollup, query)))"

text \<open>
  \<open>select_aliases\<close> and \<open>groupby_aliases\<close> belong to the query library. The first gives
  the alias of each selected expression. For the second, the library keeps the terms of
  \<open>rollup(...)\<close> as one entry \<open>ROLLUP(...)\<close> after the group-by terms (the model keeps the
  arguments of that entry in \<open>q_rollups\<close>), and an entry is named by its alias or, when it
  has none, as the \<open>ROLLUP\<close> entry has none, by its text.
\<close>

datatype index_name = Name string | Text sqlterm

definition term_name :: "sqlterm \<Rightarrow> index_name" where
  "term_name t = (case term_alias t of Some key \<Rightarrow> Name key | None \<Rightarrow> Text t)"

definition groupby_terms :: "query \<Rightarrow> sqlterm list" where
  "groupby_terms q =
     q_groupbys q @ (if q_rollups q = [] then [] else [Func ''ROLLUP'' (q_rollups q)])"

definition select_aliases :: "query \<Rightarrow> string option list" where
  "select_aliases q = map term_alias (q_selects q)"

definition groupby_aliases :: "query \<Rightarrow> index_name list" where
  "groupby_aliases q = map term_name (groupby_terms q)"

text \<open>
  \<open>_query_data\<close> up to the call of the database: the request that is sent to
  \<open>fetch_dataframe\<close>, or the error raised before. An omitted parameter and an empty one
  are both replaced by an empty container, so every parameter is a list here.
\<close>

record fetch_request =
  fr_store :: store
  fr_query :: addr
  fr_columns :: "string option list"
  fr_index :: "index_name list"

definition query_data ::
  "string \<Rightarrow> (string \<times> sqlterm \<times> JoinType) list \<Rightarrow> (string \<times> sqlterm) list \<Rightarrow>
   (string \<times> dim_obj) list \<Rightarrow> sqlterm list \<Rightarrow> sqlterm list \<Rightarrow>
   (string \<times> string) list \<Rightarrow> string list \<Rightarrow> error + fetch_request" where
  "query_data table joins metrics dimensions mfilters dfilters references rollup =
     (case build_query table joins metrics dimensions mfilters dfilters references rollup of
        Inl e \<Rightarrow> Inl e
      | Inr (h, query) \<Rightarrow>
          Inr \<lparr>fr_store = h, fr_query = query,
               fr_columns = select_aliases (h ! query),
               fr_index = groupby_aliases (h ! query)\<rparr>)"

text \<open>The columns one reference adds to the selection of the outer query: the fields of
  the reference query for the dimensions, then the mapped fields for the metrics.\<close>

definition reference_dimension_columns :: "addr \<Rightarrow> (string \<times> dim_obj) list \<Rightarrow> string \<Rightarrow> sqlterm list" where
  "reference_dimension_columns reference_query dimensions reference_key =
     map (\<lambda>(key, dimension). as_alias (field reference_query key) (key @ ''_'' @ reference_key))
         dimensions"

definition reference_metric_columns ::
  "mapper \<Rightarrow> addr \<Rightarrow> (string \<times> sqlterm) list \<Rightarrow> string \<Rightarrow> sqlterm list" where
  "reference_metric_columns field_f reference_query metrics reference_key =
     map (\<lambda>(key, metric).
            as_alias (field_f metric (field reference_query key)) (key @ ''_'' @ reference_key))
         metrics"

text \<open>
  The expressions that \<open>for_\<close> accepts, those without a literal value or an interval, and
  what it returns for them.
\<close>

fun has_for :: "sqlterm \<Rightarrow> bool" where
  "has_for (Field name t) = True"
| "has_for (Interval u n) = False"
| "has_for (Lit v) = False"
| "has_for (TAdd a b) = (has_for a \<and> has_for b)"
| "has_for (TSub a b) = (has_for a \<and> has_for b)"
| "has_for (TDiv a b) = (has_for a \<and> has_for b)"
| "has_for (TMod a b) = (has_for a \<and> has_for b)"
| "has_for (Func f args) = list_all has_for args"
| "has_for (TEq a b) = (has_for a \<and> has_for b)"
| "has_for (TAnd a b) = (has_for a \<and> has_for b)"
| "has_for (Alias a key) = has_for a"

fun repointed :: "sqlterm \<Rightarrow> tbl \<Rightarrow> sqlterm" where
  "repointed (Field name t) table = Field name (Some table)"
| "repointed (Interval u n) table = Interval u n"
| "repointed (Lit v) table = Lit v"
| "repointed (TAdd a b) table = TAdd (repointed a table) (repointed b table)"
| "repointed (TSub a b) table = TSub (repointed a table) (repointed b table)"
| "repointed (TDiv a b) table = TDiv (repointed a table) (repointed b table)"
| "repointed (TMod a b) table = TMod (repointed a table) (repointed b table)"
| "repointed (Func f args) table = Func f (map (\<lambda>a. repointed a table) args)"
| "repointed (TEq a b) table = TEq (repointed a table) (repointed b table)"
| "repointed (TAnd a b) table = TAnd (repointed a table) (repointed b table)"
| "repointed (Alias a key) table = Alias (repointed a table) key"

text \<open>
  A reference that the loop of \<open>_build_query\<close> gets through: its key has mappers, its
  dimension is in the request, and \<open>for_\<close> accepts the expression of every dimension that
  is another object than the referenced one.
\<close>

definition reference_resolves :: "(string \<times> dim_obj) list \<Rightarrow> string \<times> string \<Rightarrow> bool" where
  "reference_resolves dimensions ref =
     (case ref of (reference_key, dimension_key) \<Rightarrow>
        (case get_reference_mappers reference_key of Inl e \<Rightarrow> False | Inr m \<Rightarrow> True)
        \<and> (case map_of dimensions dimension_key of
             None \<Rightarrow> False
           | Some compared_dimension \<Rightarrow>
               list_all (\<lambda>dimension. oid dimension = oid compared_dimension
                                      \<or> has_for (expr dimension))
                        (map snd dimensions)))"

section \<open>Unique dimensions (schemas.py)\<close>

text \<open>
  \<open>str\<close> of a non-negative integer, as \<open>'{ordinal}'.format(ordinal=i)\<close> writes it.
\<close>

function str_nat :: "nat \<Rightarrow> string" where
  "str_nat n =
     (if n < 10 then [''0123456789'' ! n]
      else str_nat (n div 10) @ [''0123456789'' ! (n mod 10)])"
  by pat_completeness auto
termination
  by (relation "measure id") auto

declare str_nat.simps [simp del]

text \<open>
  A \<open>UniqueDimension\<close>. Its \<open>definition\<close> is what \<open>Dimension.__init__\<close> stores for the
  \<open>label_field\<close> argument: the label field, or \<open>Field(key)\<close> when none is given (an
  expression object is true, so the \<open>or\<close> chain stops there). \<open>id_fields\<close> is \<open>None\<close>
  unless given. The label text of the element does not enter the schemas and is left out.
\<close>

record UniqueDimension =
  ud_key :: string
  ud_definition :: sqlterm
  ud_label_field :: "sqlterm option"
  ud_id_fields :: "sqlterm list option"

definition UniqueDimension_init ::
  "string \<Rightarrow> sqlterm option \<Rightarrow> sqlterm list option \<Rightarrow> UniqueDimension" where
  "UniqueDimension_init key label_field id_fields =
     \<lparr>ud_key = key,
      ud_definition = (case label_field of Some l \<Rightarrow> l | None \<Rightarrow> Field key None),
      ud_label_field = label_field,
      ud_id_fields = id_fields\<rparr>"

text \<open>\<open>UniqueDimension.schemas\<close>; enumerating \<open>None\<close> raises a \<open>TypeError\<close>.\<close>

definition schemas :: "UniqueDimension \<Rightarrow> error + (string \<times> sqlterm) list" where
  "schemas self =
     (case ud_id_fields self of
        None \<Rightarrow> Inl TypeError
      | Some ids \<Rightarrow>
          (let id_field_schemas =
                 map (\<lambda>(i, id_field). (ud_key self @ ''_id'' @ str_nat i, id_field))
                     (enumerate 0 ids)
           in Inr (id_field_schemas @ [(ud_key self @ ''_label'', ud_definition self)])))"

section \<open>Reading a join criterion\<close>

text \<open>
  To say which rows a join criterion pairs, dates are counted in days and an interval of
  weeks is seven days a week. A valuation gives the value of each field of the outer row
  and of the sub-query's row. Expressions outside date arithmetic have no value here.
\<close>

type_synonym valuation = "tbl option \<Rightarrow> string \<Rightarrow> int"

fun date_value :: "valuation \<Rightarrow> sqlterm \<Rightarrow> int option" where
  "date_value v (Field name t) = Some (v t name)"
| "date_value v (Interval Weeks n) = Some (7 * int n)"
| "date_value v (Lit d) = Some d"
| "date_value v (TAdd a b) =
     (case (date_value v a, date_value v b) of
        (Some x, Some y) \<Rightarrow> Some (x + y)
      | _ \<Rightarrow> None)"
| "date_value v (TSub a b) =
     (case (date_value v a, date_value v b) of
        (Some x, Some y) \<Rightarrow> Some (x - y)
      | _ \<Rightarrow> None)"
| "date_value v (Alias a key) = date_value v a"
| "date_value v t = None"

fun criterion_holds :: "valuation \<Rightarrow> sqlterm \<Rightarrow> bool option" where
  "criterion_holds v (TEq a b) =
     (case (date_value v a, date_value v b) of
        (Some x, Some y) \<Rightarrow> Some (x = y)
      | _ \<Rightarrow> None)"
| "criterion_holds v (TAnd a b) =
     (case (criterion_holds v a, criterion_holds v b) of
        (Some x, Some y) \<Rightarrow> Some (x \<and> y)
      | _ \<Rightarrow> None)"
| "criterion_holds v t = None"

text \<open>The valuation in which every field of the outer row is \<open>current\<close> and every field
  of a sub-query's row is \<open>joined\<close>.\<close>

definition rows :: "int \<Rightarrow> int \<Rightarrow> valuation" where
  "rows current joined t name = (case t of Some (SubQuery a) \<Rightarrow> joined | _ \<Rightarrow> current)"

section \<open>Updates of a query and the structure under an address\<close>

text \<open>The builder calls that \<open>_build_query\<close> makes on a query, as data.\<close>

datatype mutation =
    MJoin tbl "JoinType option" sqlterm
  | MSelect "sqlterm list"
  | MGroupby "sqlterm list"
  | MRollup "sqlterm list"
  | MOrderby "sqlterm list"
  | MWhere sqlterm
  | MHaving sqlterm

fun mutate :: "addr \<Rightarrow> store \<Rightarrow> mutation \<Rightarrow> store" where
  "mutate a h (MJoin table how criterion) = qjoin h a table how criterion"
| "mutate a h (MSelect terms) = qselect h a terms"
| "mutate a h (MGroupby terms) = qgroupby h a terms"
| "mutate a h (MRollup terms) = qrollup h a terms"
| "mutate a h (MOrderby terms) = qorderby h a terms"
| "mutate a h (MWhere criterion) = qwhere h a criterion"
| "mutate a h (MHaving criterion) = qhaving h a criterion"

text \<open>
  The queries a query object refers to: its source and the tables it joins, where they
  are sub-queries.
\<close>

fun tbl_addrs :: "tbl \<Rightarrow> addr list" where
  "tbl_addrs (Table name) = []"
| "tbl_addrs (SubQuery a) = [a]"

definition subquery_addrs :: "query \<Rightarrow> addr list" where
  "subquery_addrs q = tbl_addrs (q_from q) @ concat (map (\<lambda>(table, how, criterion). tbl_addrs table) (q_joins q))"

text \<open>
  The structure of the query at an address: the object itself and, to the given depth,
  the structures of the sub-queries it refers to.
\<close>

datatype qtree = QTree query "qtree option list"

fun unfold_query :: "nat \<Rightarrow> store \<Rightarrow> addr \<Rightarrow> qtree option" where
  "unfold_query 0 h a = None"
| "unfold_query (Suc n) h a =
     (if a < length h
      then Some (QTree (h ! a) (map (unfold_query n h) (subquery_addrs (h ! a))))
      else None)"

text \<open>What the loop over the references leaves alone in the outer query.\<close>

definition same_clauses :: "query \<Rightarrow> query \<Rightarrow> bool" where
  "same_clauses a b \<longleftrightarrow>
     q_from a = q_from b \<and> q_groupbys a = q_groupbys b \<and> q_rollups a = q_rollups b \<and>
     q_orderbys a = q_orderbys b \<and> q_wheres a = q_wheres b \<and> q_havings a = q_havings b"

text \<open>
  A store in which no query has a filter and every sub-query a query refers to is another
  object of the store than \<open>query\<close>.
\<close>

definition unfiltered :: "addr \<Rightarrow> store \<Rightarrow> bool" where
  "unfiltered query h \<longleftrightarrow>
     (\<forall>a < length h.
        q_wheres (h ! a) = [] \<and> q_havings (h ! a) = [] \<and>
        (\<forall>b \<in> set (subquery_addrs (h ! a)). b \<noteq> query \<and> b < length h))"

section \<open>The store\<close>

lemma length_update [simp]: "length (update h a f) = length h"
  by (simp add: update_def)

lemma nth_update:
  "update h a f ! b = (if b = a \<and> a < length h then f (h ! a) else h ! b)"
  by (simp add: update_def)

lemma length_builders [simp]:
  "length (qjoin h a t how c) = length h"
  "length (qselect h a ts) = length h"
  "length (qgroupby h a ts) = length h"
  "length (qrollup h a ts) = length h"
  "length (qorderby h a ts) = length h"
  "length (qwhere h a c) = length h"
  "length (qhaving h a c) = length h"
  by (simp_all add: qjoin_def qselect_def qgroupby_def qrollup_def qorderby_def qwhere_def
        qhaving_def)

lemma builders_other:
  assumes "b \<noteq> a"
  shows "qjoin h a t how c ! b = h ! b"
    and "qselect h a ts ! b = h ! b"
    and "qgroupby h a ts ! b = h ! b"
    and "qrollup h a ts ! b = h ! b"
    and "qorderby h a ts ! b = h ! b"
    and "qwhere h a c ! b = h ! b"
    and "qhaving h a c ! b = h ! b"
  using assms
  by (simp_all add: qjoin_def qselect_def qgroupby_def qrollup_def qorderby_def qwhere_def
        qhaving_def nth_update)

lemma builders_same:
  assumes "a < length h"
  shows "qjoin h a t how c ! a = (h ! a)\<lparr>q_joins := q_joins (h ! a) @ [(t, how, c)]\<rparr>"
    and "qselect h a ts ! a = (h ! a)\<lparr>q_selects := q_selects (h ! a) @ ts\<rparr>"
    and "qgroupby h a ts ! a = (h ! a)\<lparr>q_groupbys := q_groupbys (h ! a) @ ts\<rparr>"
    and "qrollup h a ts ! a = (h ! a)\<lparr>q_rollups := q_rollups (h ! a) @ ts\<rparr>"
    and "qorderby h a ts ! a = (h ! a)\<lparr>q_orderbys := q_orderbys (h ! a) @ ts\<rparr>"
    and "qwhere h a c ! a = (h ! a)\<lparr>q_wheres := q_wheres (h ! a) @ [c]\<rparr>"
    and "qhaving h a c ! a = (h ! a)\<lparr>q_havings := q_havings (h ! a) @ [c]\<rparr>"
  using assms
  by (simp_all add: qjoin_def qselect_def qgroupby_def qrollup_def qorderby_def qwhere_def
        qhaving_def nth_update)

lemma deepcopy_length: "length (fst (deepcopy h q)) = 2 * length h"
  by (simp add: deepcopy_def)

lemma deepcopy_old: "a < length h \<Longrightarrow> fst (deepcopy h q) ! a = h ! a"
  by (simp add: deepcopy_def nth_append)

lemma deepcopy_new:
  "a < length h \<Longrightarrow> fst (deepcopy h q) ! (a + length h) = shift_query (length h) (h ! a)"
  by (simp add: deepcopy_def nth_append)

section \<open>One reference\<close>

lemma for_table_eq:
  "for_table t table = (if has_for t then Inr (repointed t table) else Inl AttributeError)"
  "for_tables ts table
     = (if list_all has_for ts then Inr (map (\<lambda>a. repointed a table) ts)
        else Inl AttributeError)"
  by (induction t table and ts table rule: for_table_for_tables.induct) simp_all

lemma compare_other_dimensions_eq:
  "compare_other_dimensions q c cx ds
     = (if list_all (\<lambda>d. oid d = oid c \<or> has_for (expr d)) ds
        then Inr (foldl TAnd cx
                    (map (\<lambda>d. TEq (expr d) (repointed (expr d) (SubQuery q)))
                         (filter (\<lambda>d. oid d \<noteq> oid c) ds)))
        else Inl AttributeError)"
  by (induction ds arbitrary: cx) (simp_all add: for_table_eq)

lemma add_reference_succeeds:
  assumes "reference_resolves ds (rk, dk)"
  shows "\<exists>h'. add_reference h q ms ds (rk, dk) = Inr h'"
proof -
  from assms obtain cf ff where m: "get_reference_mappers rk = Inr (cf, ff)"
    by (auto simp: reference_resolves_def split: sum.splits)
  from assms obtain c where c: "map_of ds dk = Some c"
    and l: "list_all (\<lambda>d. oid d = oid c \<or> has_for (expr d)) (map snd ds)"
    by (auto simp: reference_resolves_def split: option.splits)
  from c l obtain cx where
    "build_reference_join_criterion (q + length h) ds cf dk = Inr cx"
    by (simp add: build_reference_join_criterion_def compare_other_dimensions_eq)
  with m show ?thesis
    by (simp add: add_reference_def deepcopy_def Let_def)
qed

lemma add_reference_fails:
  assumes "add_reference h q ms ds (rk, dk) = Inl e"
  shows "\<not> reference_resolves ds (rk, dk)"
  using assms add_reference_succeeds [of ds rk dk h q ms] by auto

lemma add_reference_props:
  assumes ok: "add_reference h q ms ds (rk, dk) = Inr h'" and q: "q < length h"
  obtains cf ff cx where
    "get_reference_mappers rk = Inr (cf, ff)"
    "build_reference_join_criterion (q + length h) ds cf dk = Inr cx"
    "length h' = 2 * length h"
    "h' ! q = (h ! q)\<lparr>q_joins := q_joins (h ! q) @ [(SubQuery (q + length h), None, cx)],
                      q_selects := q_selects (h ! q)
                        @ reference_dimension_columns (q + length h) ds rk
                        @ reference_metric_columns ff (q + length h) ms rk\<rparr>"
    "\<And>a. a < length h \<Longrightarrow> a \<noteq> q \<Longrightarrow> h' ! a = h ! a"
    "\<And>a. a < length h \<Longrightarrow> h' ! (a + length h) = shift_query (length h) (h ! a)"
proof -
  from ok obtain cf ff where m: "get_reference_mappers rk = Inr (cf, ff)"
    by (auto simp: add_reference_def split: sum.splits)
  from ok m obtain cx where
    c: "build_reference_join_criterion (q + length h) ds cf dk = Inr cx"
    by (auto simp: add_reference_def deepcopy_def split: sum.splits)
  define h1 where "h1 = fst (deepcopy h q)"
  define h2 where "h2 = qjoin h1 q (SubQuery (q + length h)) None cx"
  define h3 where "h3 = (if ds \<noteq> [] then qselect h2 q (reference_dimension_columns (q + length h) ds rk) else h2)"
  have h': "h' = qselect h3 q (reference_metric_columns ff (q + length h) ms rk)"
    using ok m c
    by (cases "ds = []")
       (simp_all add: add_reference_def deepcopy_def Let_def h1_def h2_def h3_def
          reference_dimension_columns_def reference_metric_columns_def)
  have l1: "length h1 = 2 * length h" by (simp add: h1_def deepcopy_length)
  have l2: "length h2 = 2 * length h" by (simp add: h2_def l1)
  have l3: "length h3 = 2 * length h" by (simp add: h3_def l2)
  have len: "length h' = 2 * length h" by (simp add: h' l3)
  have q1: "q < length h1" and q2: "q < length h2" and q3: "q < length h3"
    using q l1 l2 l3 by simp_all
  have o1: "h1 ! q = h ! q" using q by (simp add: h1_def deepcopy_old)
  have o2: "h2 ! q = (h ! q)\<lparr>q_joins := q_joins (h ! q) @ [(SubQuery (q + length h), None, cx)]\<rparr>"
    using q1 by (simp add: h2_def builders_same o1)
  have o3: "h3 ! q = (h ! q)\<lparr>q_joins := q_joins (h ! q) @ [(SubQuery (q + length h), None, cx)],
                            q_selects := q_selects (h ! q) @ reference_dimension_columns (q + length h) ds rk\<rparr>"
  proof (cases "ds = []")
    case True
    then show ?thesis by (simp add: h3_def o2 reference_dimension_columns_def)
  next
    case False
    then show ?thesis using q2 by (simp add: h3_def builders_same o2)
  qed
  have outer: "h' ! q = (h ! q)\<lparr>q_joins := q_joins (h ! q) @ [(SubQuery (q + length h), None, cx)],
                      q_selects := q_selects (h ! q)
                        @ reference_dimension_columns (q + length h) ds rk
                        @ reference_metric_columns ff (q + length h) ms rk\<rparr>"
    using q3 by (simp add: h' builders_same o3)
  have other: "h' ! a = h1 ! a" if "a \<noteq> q" for a
    using that by (simp add: h' h3_def h2_def builders_other)
  have old: "h' ! a = h ! a" if "a < length h" "a \<noteq> q" for a
    using that other by (simp add: h1_def deepcopy_old)
  have new: "h' ! (a + length h) = shift_query (length h) (h ! a)" if "a < length h" for a
  proof -
    have "a + length h \<noteq> q" using q by simp
    then show ?thesis using that other by (simp add: h1_def deepcopy_new)
  qed
  from m c len outer old new show thesis by (rule that)
qed

section \<open>Reference keys\<close>

lemma split_no_sep: "sep \<notin> set s \<Longrightarrow> split sep s = [s]"
  by (induction s) auto

lemma split_at_first_sep:
  "sep \<notin> set pre \<Longrightarrow> split sep (pre @ sep # rest) = pre # split sep rest"
  by (induction pre) auto

lemma reference_criterion_keys:
  "reference_criterion pre = Some cf \<Longrightarrow> pre \<in> {''yoy'', ''qoq'', ''mom'', ''wow''}"
  by (auto simp: reference_criterion_def split: if_splits)

lemma reference_criterion_no_underscore:
  "reference_criterion pre = Some cf \<Longrightarrow> CHR ''_'' \<notin> set pre"
  by (drule reference_criterion_keys) auto

text \<open>
  C3. For a reference key whose prefix is a known criterion key, the field function is
  chosen by the suffix after the underscore: without a suffix it returns the joined field
  and ignores the current one; with suffix \<open>d\<close> it returns current minus joined; with
  suffix \<open>p\<close> it returns current minus joined, divided by joined.
\<close>

theorem field_f_by_suffix:
  assumes "reference_criterion pre = Some cf"
  shows "get_reference_mappers pre = Inr (cf, \<lambda>current joined. joined)
       \<and> get_reference_mappers (pre @ ''_d'') = Inr (cf, \<lambda>current joined. TSub current joined)
       \<and> get_reference_mappers (pre @ ''_p'')
           = Inr (cf, \<lambda>current joined. TDiv (TSub current joined) joined)"
proof -
  have u: "CHR ''_'' \<notin> set pre"
    using assms by (rule reference_criterion_no_underscore)
  have "split (CHR ''_'') pre = [pre]"
    using u by (rule split_no_sep)
  then have a: "get_reference_mappers pre = Inr (cf, \<lambda>current joined. joined)"
    using assms by (simp add: get_reference_mappers_def)
  have "split (CHR ''_'') (pre @ ''_d'') = [pre, ''d'']"
    using split_at_first_sep [OF u, of "''d''"] by simp
  then have b: "get_reference_mappers (pre @ ''_d'')
                  = Inr (cf, \<lambda>current joined. TSub current joined)"
    using assms by (simp add: get_reference_mappers_def reference_field_def)
  have "split (CHR ''_'') (pre @ ''_p'') = [pre, ''p'']"
    using split_at_first_sep [OF u, of "''p''"] by simp
  then have c: "get_reference_mappers (pre @ ''_p'')
                  = Inr (cf, \<lambda>current joined. TDiv (TSub current joined) joined)"
    using assms by (simp add: get_reference_mappers_def reference_field_def)
  from a b c show ?thesis by simp
qed

theorem field_f_by_suffix_witness:
  "reference_criterion ''wow''
     = Some (\<lambda>key join_key. TEq key (TSub join_key (Interval Weeks 1)))
   \<and> get_reference_mappers ''wow_p''
     = Inr (\<lambda>key join_key. TEq key (TSub join_key (Interval Weeks 1)),
            \<lambda>current joined. TDiv (TSub current joined) joined)"
proof -
  have h: "reference_criterion ''wow''
             = Some (\<lambda>key join_key. TEq key (TSub join_key (Interval Weeks 1)))"
    by (simp add: reference_criterion_def)
  show ?thesis using h field_f_by_suffix [OF h] by simp
qed

section \<open>The compiled query\<close>

lemma base_joins:
  "foldl (\<lambda>h (join_table, criterion, join_type).
            qjoin h 0 (Table join_table) (Some join_type) criterion) [x] joins
   = [x\<lparr>q_joins := q_joins x
          @ map (\<lambda>(join_table, criterion, join_type). (Table join_table, Some join_type, criterion))
                joins\<rparr>]"
proof (induction joins arbitrary: x)
  case Nil
  show ?case by simp
next
  case (Cons j joins)
  obtain t c how where j: "j = (t, c, how)" by (cases j)
  have "qjoin [x] 0 (Table t) (Some how) c = [x\<lparr>q_joins := q_joins x @ [(Table t, Some how, c)]\<rparr>]"
    by (simp add: qjoin_def update_def)
  then show ?case using Cons.IH by (simp add: j)
qed

lemma on_singleton:
  "qselect [x] 0 ts = [x\<lparr>q_selects := q_selects x @ ts\<rparr>]"
  "qgroupby [x] 0 ts = [x\<lparr>q_groupbys := q_groupbys x @ ts\<rparr>]"
  "qrollup [x] 0 ts = [x\<lparr>q_rollups := q_rollups x @ ts\<rparr>]"
  by (simp_all add: qselect_def qgroupby_def qrollup_def update_def)

lemma base_query_eq:
  "base_query table joins metrics dimensions rollup =
     ([\<lparr>q_from = Table table,
        q_joins = map (\<lambda>(join_table, criterion, join_type).
                         (Table join_table, Some join_type, criterion)) joins,
        q_selects = dx_of dimensions rollup @ rx_of dimensions rollup
                    @ map (\<lambda>(key, metric). as_alias metric key) metrics,
        q_groupbys = dx_of dimensions rollup,
        q_rollups = rx_of dimensions rollup,
        q_orderbys = [], q_wheres = [], q_havings = []\<rparr>], 0)"
  by (simp add: base_query_def from_table_def base_joins on_singleton Let_def)

lemma fold_where:
  "length (foldl (\<lambda>h x. qwhere h q x) h xs) = length h"
  "b \<noteq> q \<Longrightarrow> foldl (\<lambda>h x. qwhere h q x) h xs ! b = h ! b"
  "q < length h \<Longrightarrow>
     foldl (\<lambda>h x. qwhere h q x) h xs ! q = (h ! q)\<lparr>q_wheres := q_wheres (h ! q) @ xs\<rparr>"
  by (induction xs arbitrary: h) (simp_all add: builders_other builders_same)

lemma fold_having:
  "length (foldl (\<lambda>h x. qhaving h q x) h xs) = length h"
  "b \<noteq> q \<Longrightarrow> foldl (\<lambda>h x. qhaving h q x) h xs ! b = h ! b"
  "q < length h \<Longrightarrow>
     foldl (\<lambda>h x. qhaving h q x) h xs ! q = (h ! q)\<lparr>q_havings := q_havings (h ! q) @ xs\<rparr>"
  by (induction xs arbitrary: h) (simp_all add: builders_other builders_same)

lemma order_and_filter_length [simp]:
  "length (order_and_filter h q ds mfilters dfilters rollup) = length h"
  by (simp add: order_and_filter_def Let_def fold_where fold_having)

lemma order_and_filter_other:
  "b \<noteq> q \<Longrightarrow> order_and_filter h q ds mfilters dfilters rollup ! b = h ! b"
  by (simp add: order_and_filter_def Let_def fold_where fold_having builders_other)

lemma order_and_filter_same:
  assumes "q < length h"
  shows "order_and_filter h q ds mfilters dfilters rollup ! q
       = (h ! q)\<lparr>q_orderbys := q_orderbys (h ! q) @ dx_of ds rollup @ rx_of ds rollup,
                 q_wheres := q_wheres (h ! q) @ dfilters,
                 q_havings := q_havings (h ! q) @ mfilters\<rparr>"
  using assms
  by (simp add: order_and_filter_def Let_def fold_where fold_having builders_same)

lemma add_references_length:
  "add_references h q ms ds refs = Inr h' \<Longrightarrow> q < length h \<Longrightarrow> length h \<le> length h'"
proof (induction refs arbitrary: h)
  case Nil
  then show ?case by simp
next
  case (Cons ref refs)
  obtain rk dk where ref: "ref = (rk, dk)" by (cases ref)
  from Cons.prems obtain h1 where
    s: "add_reference h q ms ds (rk, dk) = Inr h1" and r: "add_references h1 q ms ds refs = Inr h'"
    by (auto simp: ref split: sum.splits)
  from s Cons.prems(2) have l: "length h1 = 2 * length h"
    by (rule add_reference_props)
  with Cons.IH [OF r] Cons.prems(2) show ?case by simp
qed

lemma add_reference_outer:
  assumes "add_reference h q ms ds (rk, dk) = Inr h'" and "q < length h"
  shows "same_clauses (h' ! q) (h ! q)"
  using assms by (rule add_reference_props) (simp add: same_clauses_def)

lemma add_references_outer:
  "add_references h q ms ds refs = Inr h' \<Longrightarrow> q < length h \<Longrightarrow> same_clauses (h' ! q) (h ! q)"
proof (induction refs arbitrary: h)
  case Nil
  then show ?case by (simp add: same_clauses_def)
next
  case (Cons ref refs)
  obtain rk dk where ref: "ref = (rk, dk)" by (cases ref)
  from Cons.prems obtain h1 where
    s: "add_reference h q ms ds (rk, dk) = Inr h1" and r: "add_references h1 q ms ds refs = Inr h'"
    by (auto simp: ref split: sum.splits)
  from s Cons.prems(2) have l: "length h1 = 2 * length h"
    by (rule add_reference_props)
  then have "q < length h1" using Cons.prems(2) by simp
  from Cons.IH [OF r this] add_reference_outer [OF s Cons.prems(2)]
  show ?case by (simp add: same_clauses_def)
qed

lemma term_alias_as_alias [simp]: "term_alias (as_alias t key) = Some key"
  by (cases t) simp_all

lemma compiled_clauses:
  assumes "build_query table joins metrics dimensions mfilters dfilters references rollup
             = Inr (h, query)"
  shows "q_orderbys (h ! query) = dx_of dimensions rollup @ rx_of dimensions rollup"
    and "q_groupbys (h ! query) = dx_of dimensions rollup"
    and "q_rollups (h ! query) = rx_of dimensions rollup"
proof -
  obtain h0 where b: "base_query table joins metrics dimensions rollup = (h0, 0)"
    and h0: "length h0 = 1"
    and g0: "q_groupbys (h0 ! 0) = dx_of dimensions rollup"
            "q_rollups (h0 ! 0) = rx_of dimensions rollup" "q_orderbys (h0 ! 0) = []"
    by (simp add: base_query_eq)
  from assms b obtain h1 where
    r: "add_references h0 0 metrics dimensions references = Inr h1"
    and h: "h = order_and_filter h1 0 dimensions mfilters dfilters rollup"
    and query: "query = 0"
    by (auto simp: build_query_def split: sum.splits)
  have q0: "0 < length h0" using h0 by simp
  have q1: "0 < length h1" using add_references_length [OF r q0] h0 by auto
  have same: "same_clauses (h1 ! 0) (h0 ! 0)" using r q0 by (rule add_references_outer)
  have fin: "h ! 0 = (h1 ! 0)\<lparr>q_orderbys := q_orderbys (h1 ! 0) @ dx_of dimensions rollup @ rx_of dimensions rollup,
                 q_wheres := q_wheres (h1 ! 0) @ dfilters,
                 q_havings := q_havings (h1 ! 0) @ mfilters\<rparr>"
    unfolding h using q1 by (rule order_and_filter_same)
  show "q_orderbys (h ! query) = dx_of dimensions rollup @ rx_of dimensions rollup"
    using same g0 by (simp add: fin query same_clauses_def)
  show "q_groupbys (h ! query) = dx_of dimensions rollup"
    using same g0 by (simp add: fin query same_clauses_def)
  show "q_rollups (h ! query) = rx_of dimensions rollup"
    using same g0 by (simp add: fin query same_clauses_def)
qed

text \<open>
  The ordering of every compiled query: the dimension expressions outside the rollup, in
  the order of the request, and the rollup ones after them.
\<close>

lemma ordering_of_compiled_query:
  assumes "build_query table joins metrics dimensions mfilters dfilters references rollup
             = Inr (h, query)"
  shows "q_orderbys (h ! query)
           = map (\<lambda>(key, dimension). as_alias (expr dimension) key)
               (filter (\<lambda>(key, dimension). key \<notin> set rollup) dimensions
                @ filter (\<lambda>(key, dimension). key \<in> set rollup) dimensions)"
  using compiled_clauses(1) [OF assms] by (simp add: dx_of_def rx_of_def)

text \<open>
  The index of every compiled query: the keys outside the rollup, in the order of the
  request, and after them, when a dimension of the request is in the rollup, one name,
  the text of the \<open>ROLLUP\<close> entry.
\<close>

lemma index_of_compiled_query:
  assumes "build_query table joins metrics dimensions mfilters dfilters references rollup
             = Inr (h, query)"
  shows "groupby_aliases (h ! query)
           = map Name (filter (\<lambda>key. key \<notin> set rollup) (map fst dimensions))
             @ (if rx_of dimensions rollup = [] then []
                else [Text (Func ''ROLLUP'' (rx_of dimensions rollup))])"
proof -
  have "map term_name (dx_of dimensions rollup)
          = map Name (filter (\<lambda>key. key \<notin> set rollup) (map fst dimensions))"
    by (simp add: dx_of_def term_name_def filter_map comp_def case_prod_unfold)
  then show ?thesis
    using compiled_clauses(2,3) [OF assms]
    by (simp add: groupby_aliases_def groupby_terms_def term_name_def)
qed

section \<open>The join criterion of a reference\<close>

lemma map_of_distinct_key:
  "distinct (map fst xs) \<Longrightarrow> map_of xs k = Some v \<Longrightarrow> (k, w) \<in> set xs \<Longrightarrow> w = v"
  by (metis map_of_is_SomeI option.inject)

lemma criterion_by_keys:
  assumes keys: "distinct (map fst dimensions)"
    and compared: "map_of dimensions dimension_key = Some compared_dimension"
    and objects: "\<forall>(key, dimension) \<in> set dimensions.
                    key \<noteq> dimension_key \<longrightarrow> oid dimension \<noteq> oid compared_dimension"
    and others: "\<forall>(key, dimension) \<in> set dimensions.
                   key \<noteq> dimension_key \<longrightarrow> has_for (expr dimension)"
  shows "build_reference_join_criterion reference_query dimensions criterion_f dimension_key
       = Inr (foldl TAnd
                (criterion_f (expr compared_dimension)
                             (Field dimension_key (Some (SubQuery reference_query))))
                (map (\<lambda>(key, dimension).
                        TEq (expr dimension) (repointed (expr dimension) (SubQuery reference_query)))
                     (filter (\<lambda>(key, dimension). key \<noteq> dimension_key) dimensions)))"
proof -
  have iff: "(oid d \<noteq> oid compared_dimension) = (key \<noteq> dimension_key)"
    if "(key, d) \<in> set dimensions" for key d
    using that objects map_of_distinct_key [OF keys compared] by fastforce
  have same: "filter (\<lambda>d. oid d \<noteq> oid compared_dimension) (map snd dimensions)
            = map snd (filter (\<lambda>(key, dimension). key \<noteq> dimension_key) dimensions)"
  proof -
    have "filter ((\<lambda>d. oid d \<noteq> oid compared_dimension) \<circ> snd) dimensions
             = filter (\<lambda>(key, dimension). key \<noteq> dimension_key) dimensions"
      using iff by (intro filter_cong) auto
    then show ?thesis by (simp add: filter_map)
  qed
  have accepted: "list_all (\<lambda>d. oid d = oid compared_dimension \<or> has_for (expr d))
                    (map snd dimensions)"
    unfolding list_all_iff using iff others by fastforce
  show ?thesis
    using compared accepted
    by (simp add: build_reference_join_criterion_def compare_other_dimensions_eq same
          field_def case_prod_unfold comp_def)
qed

text \<open>
  Where \<open>for_\<close> accepts the expressions of the other dimensions, the criterion that joins
  a reference query is the time-shift criterion of the reference, applied to the
  expression of the referenced dimension and the field of that key in the reference
  query, in conjunction with one equality for every other dimension of the request,
  between its expression and the same expression for the reference query.
\<close>

lemma join_criterion_of_reference:
  assumes keys: "distinct (map fst dimensions)"
    and compared: "map_of dimensions dimension_key = Some compared_dimension"
    and objects: "\<forall>(key, dimension) \<in> set dimensions.
                    key \<noteq> dimension_key \<longrightarrow> oid dimension \<noteq> oid compared_dimension"
    and others: "\<forall>(key, dimension) \<in> set dimensions.
                   key \<noteq> dimension_key \<longrightarrow> has_for (expr dimension)"
    and mappers: "get_reference_mappers reference_key = Inr (criterion_f, field_f)"
    and query: "query < length h"
  shows "\<exists>h'. add_reference h query metrics dimensions (reference_key, dimension_key) = Inr h'
          \<and> q_joins (h' ! query)
            = q_joins (h ! query)
              @ [(SubQuery (query + length h), None,
                  foldl TAnd
                    (criterion_f (expr compared_dimension)
                                 (Field dimension_key (Some (SubQuery (query + length h)))))
                    (map (\<lambda>(key, dimension).
                            TEq (expr dimension)
                                (repointed (expr dimension) (SubQuery (query + length h))))
                         (filter (\<lambda>(key, dimension). key \<noteq> dimension_key) dimensions)))]"
proof -
  note c0 = criterion_by_keys [OF keys compared objects others, of "query + length h" criterion_f]
  from mappers c0 obtain h' where
    ok: "add_reference h query metrics dimensions (reference_key, dimension_key) = Inr h'"
    by (simp add: add_reference_def deepcopy_def Let_def)
  from ok query obtain cf ff cx where
    m: "get_reference_mappers reference_key = Inr (cf, ff)"
    and c: "build_reference_join_criterion (query + length h) dimensions cf dimension_key = Inr cx"
    and o: "q_joins (h' ! query)
              = q_joins (h ! query) @ [(SubQuery (query + length h), None, cx)]"
    by (rule add_reference_props) simp
  from m mappers have cf: "cf = criterion_f" by simp
  from c c0 have "cx = foldl TAnd
                    (criterion_f (expr compared_dimension)
                                 (Field dimension_key (Some (SubQuery (query + length h)))))
                    (map (\<lambda>(key, dimension).
                            TEq (expr dimension)
                                (repointed (expr dimension) (SubQuery (query + length h))))
                         (filter (\<lambda>(key, dimension). key \<noteq> dimension_key) dimensions))"
    by (simp add: cf)
  with ok o show ?thesis by simp
qed

text \<open>
  C2. For the request with the dimensions \<open>date\<close> and \<open>bucket\<close>, the expression of
  \<open>bucket\<close> being the one a continuous dimension expands to, \<open>MOD(clicks + 0, 5)\<close>, and
  the reference \<open>wow\<close> on \<open>date\<close>, no join criterion is built: \<open>for_\<close> on the expression
  of \<open>bucket\<close> reaches the literal and raises, in \<open>_build_reference_join_criterion\<close> and
  so in \<open>_build_query\<close>.
\<close>

theorem literal_dimension_reference_raises:
  "build_reference_join_criterion 1
     [(''date'', (0, Field ''dt'' None)),
      (''bucket'', (1, TMod (TAdd (Field ''clicks'' None) (Lit 0)) (Lit 5)))]
     (\<lambda>key join_key. TEq key (TSub join_key (Interval Weeks 1))) ''date''
   = Inl AttributeError
   \<and> build_query ''events'' [] [(''clicks'', Func ''SUM'' [Field ''clicks'' None])]
       [(''date'', (0, Field ''dt'' None)),
        (''bucket'', (1, TMod (TAdd (Field ''clicks'' None) (Lit 0)) (Lit 5)))]
       [] [] [(''wow'', ''date'')] []
     = Inl AttributeError"
  by (simp add: build_query_def base_query_eq add_reference_def get_reference_mappers_def
        reference_criterion_def deepcopy_def build_reference_join_criterion_def)

section \<open>When the compilation raises\<close>

lemma add_references_succeeds:
  assumes "\<forall>ref \<in> set refs. reference_resolves ds ref"
  shows "\<exists>h'. add_references h q ms ds refs = Inr h'"
  using assms
proof (induction refs arbitrary: h)
  case Nil
  show ?case by simp
next
  case (Cons ref refs)
  obtain rk dk where ref: "ref = (rk, dk)" by (cases ref)
  from Cons.prems have "reference_resolves ds (rk, dk)" by (simp add: ref)
  then obtain h1 where "add_reference h q ms ds (rk, dk) = Inr h1"
    using add_reference_succeeds by blast
  moreover from Cons.IH [of h1] Cons.prems
  obtain h' where "add_references h1 q ms ds refs = Inr h'" by auto
  ultimately show ?case by (simp add: ref)
qed

lemma add_references_fails:
  "add_references h q ms ds refs = Inl e \<Longrightarrow> \<exists>ref \<in> set refs. \<not> reference_resolves ds ref"
  using add_references_succeeds [of refs ds h q ms] by auto

lemma build_query_succeeds:
  assumes "\<forall>ref \<in> set refs. reference_resolves ds ref"
  shows "\<exists>h. build_query table joins ms ds mfilters dfilters refs rollup = Inr (h, 0)"
proof -
  obtain h0 where b: "base_query table joins ms ds rollup = (h0, 0)"
    by (simp add: base_query_eq)
  from add_references_succeeds [OF assms, of h0 0 ms]
  obtain h1 where "add_references h0 0 ms ds refs = Inr h1" by blast
  with b show ?thesis by (simp add: build_query_def)
qed

lemma build_query_fails:
  assumes "build_query table joins ms ds mfilters dfilters refs rollup = Inl e"
  shows "\<exists>ref \<in> set refs. \<not> reference_resolves ds ref"
proof -
  obtain h0 where b: "base_query table joins ms ds rollup = (h0, 0)"
    by (simp add: base_query_eq)
  with assms have "add_references h0 0 ms ds refs = Inl e"
    by (auto simp: build_query_def split: sum.splits)
  then show ?thesis by (rule add_references_fails)
qed

section \<open>The index of a request with a rollup\<close>

text \<open>
  C8. For the request with the dimensions \<open>device\<close> and \<open>date\<close>, the rollup of \<open>device\<close>
  and the reference \<open>wow\<close> on \<open>date\<close>, the ordering of the compiled query is the
  expression of \<open>date\<close>, which is outside the rollup, and then the one of \<open>device\<close>; the
  index handed to the database call is the key \<open>date\<close> followed by the text of the
  \<open>ROLLUP\<close> entry, not by the key \<open>device\<close>.
\<close>

theorem rollup_index_is_rollup_text:
  "(case query_data ''events'' [] [(''clicks'', Func ''SUM'' [Field ''clicks'' None])]
           [(''device'', (0, Field ''device_type'' None)), (''date'', (1, Field ''dt'' None))]
           [] [] [(''wow'', ''date'')] [''device''] of
      Inl e \<Rightarrow> False
    | Inr request \<Rightarrow>
        q_orderbys (fr_store request ! fr_query request)
          = [Alias (Field ''dt'' None) ''date'', Alias (Field ''device_type'' None) ''device'']
        \<and> fr_index request
          = [Name ''date'',
             Text (Func ''ROLLUP'' [Alias (Field ''device_type'' None) ''device''])])"
proof -
  let ?ds = "[(''device'', (0::nat, Field ''device_type'' None)), (''date'', (1, Field ''dt'' None))]"
  have "\<forall>ref \<in> set [(''wow'', ''date'')]. reference_resolves ?ds ref"
    by (simp add: reference_resolves_def get_reference_mappers_def reference_criterion_def)
  from build_query_succeeds [OF this]
  obtain h where b: "build_query ''events'' [] [(''clicks'', Func ''SUM'' [Field ''clicks'' None])]
       ?ds [] [] [(''wow'', ''date'')] [''device''] = Inr (h, 0)"
    by blast
  from ordering_of_compiled_query [OF b] index_of_compiled_query [OF b] b
  show ?thesis by (simp add: query_data_def rx_of_def)
qed

section \<open>The direction of the time shift\<close>

text \<open>
  C1. For the request with the metric \<open>clicks\<close>, the dimension \<open>date\<close> and the single
  reference \<open>wow\<close> on \<open>date\<close>, the compiled query joins the reference query on
  \<open>date == sub_query.date - 1 week\<close>. With dates counted in days, the row of day 8 is not
  paired with the sub-query's row of day 1, the week before, but with the one of day 15,
  the week after.
\<close>

theorem wow_criterion_pairs_following_week:
  "build_query ''events'' [] [(''clicks'', Func ''SUM'' [Field ''clicks'' None])]
       [(''date'', (0, Field ''date'' None))] [] [] [(''wow'', ''date'')] []
   = Inr ([\<lparr>q_from = Table ''events'',
            q_joins = [(SubQuery 1, None,
                        TEq (Field ''date'' None)
                            (TSub (Field ''date'' (Some (SubQuery 1))) (Interval Weeks 1)))],
            q_selects = [Alias (Field ''date'' None) ''date'',
                         Alias (Func ''SUM'' [Field ''clicks'' None]) ''clicks'',
                         Alias (Field ''date'' (Some (SubQuery 1))) ''date_wow'',
                         Alias (Field ''clicks'' (Some (SubQuery 1))) ''clicks_wow''],
            q_groupbys = [Alias (Field ''date'' None) ''date''],
            q_rollups = [],
            q_orderbys = [Alias (Field ''date'' None) ''date''],
            q_wheres = [], q_havings = []\<rparr>,
           \<lparr>q_from = Table ''events'', q_joins = [],
            q_selects = [Alias (Field ''date'' None) ''date'',
                         Alias (Func ''SUM'' [Field ''clicks'' None]) ''clicks''],
            q_groupbys = [Alias (Field ''date'' None) ''date''],
            q_rollups = [], q_orderbys = [], q_wheres = [], q_havings = []\<rparr>], 0)
   \<and> criterion_holds (rows 8 1)
         (TEq (Field ''date'' None)
              (TSub (Field ''date'' (Some (SubQuery 1))) (Interval Weeks 1))) = Some False
   \<and> criterion_holds (rows 8 15)
         (TEq (Field ''date'' None)
              (TSub (Field ''date'' (Some (SubQuery 1))) (Interval Weeks 1))) = Some True"
  by (simp add: build_query_def base_query_eq add_reference_def get_reference_mappers_def
        reference_criterion_def deepcopy_def build_reference_join_criterion_def
        order_and_filter_def qjoin_def qselect_def qorderby_def update_def shift_query_def
        field_def Let_def dx_of_def rx_of_def rows_def)

text \<open>
  The same reading for every criterion counted in weeks: the criterion of \<open>yoy\<close>, \<open>mom\<close>
  and \<open>wow\<close> holds exactly when the date of the outer row is the date of the sub-query's
  row minus 52, 4 and 1 weeks, that is when the sub-query's row is the later one.
\<close>

lemma week_criteria_pair_later_rows:
  "map_option (\<lambda>criterion_f.
       criterion_holds (rows current joined)
         (criterion_f (Field key None) (Field key (Some (SubQuery reference_query)))))
     (reference_criterion ''yoy'') = Some (Some (joined = current + 7 * 52))"
  "map_option (\<lambda>criterion_f.
       criterion_holds (rows current joined)
         (criterion_f (Field key None) (Field key (Some (SubQuery reference_query)))))
     (reference_criterion ''mom'') = Some (Some (joined = current + 7 * 4))"
  "map_option (\<lambda>criterion_f.
       criterion_holds (rows current joined)
         (criterion_f (Field key None) (Field key (Some (SubQuery reference_query)))))
     (reference_criterion ''wow'') = Some (Some (joined = current + 7 * 1))"
  by (auto simp: reference_criterion_def rows_def)

section \<open>Requests the compilation does not reject\<close>

text \<open>
  C5, as the claim states it, fails: for the request with the dimension \<open>date\<close> and no
  metric, \<open>_query_data\<close> raises nothing and hands a query without a metric column to the
  database call.
\<close>

theorem empty_metrics_counterexample:
  "query_data ''events'' [] [] [(''date'', (0, Field ''date'' None))] [] [] [] []
   = Inr \<lparr>fr_store = [\<lparr>q_from = Table ''events'', q_joins = [],
                        q_selects = [Alias (Field ''date'' None) ''date''],
                        q_groupbys = [Alias (Field ''date'' None) ''date''],
                        q_rollups = [],
                        q_orderbys = [Alias (Field ''date'' None) ''date''],
                        q_wheres = [], q_havings = []\<rparr>],
          fr_query = 0, fr_columns = [Some ''date''], fr_index = [Name ''date'']\<rparr>"
  by (simp add: query_data_def build_query_def base_query_eq order_and_filter_def
        qorderby_def update_def Let_def dx_of_def rx_of_def select_aliases_def
        groupby_aliases_def groupby_terms_def term_name_def)

text \<open>
  C5, amended. The compilation makes no check on the metric set. For a request without
  metrics whose references resolve (known reference keys on dimensions of the request,
  the expressions of the other dimensions accepted by \<open>for_\<close>), \<open>_build_query\<close> returns a
  query and \<open>_query_data\<close> sends it to the database call.
\<close>

theorem empty_metrics_compile:
  assumes "\<forall>ref \<in> set references. reference_resolves dimensions ref"
  shows "\<exists>h. build_query table joins [] dimensions mfilters dfilters references rollup
                = Inr (h, 0)
           \<and> query_data table joins [] dimensions mfilters dfilters references rollup
                = Inr \<lparr>fr_store = h, fr_query = 0,
                       fr_columns = select_aliases (h ! 0),
                       fr_index = groupby_aliases (h ! 0)\<rparr>"
proof -
  from build_query_succeeds [OF assms]
  obtain h where "build_query table joins [] dimensions mfilters dfilters references rollup
                = Inr (h, 0)"
    by blast
  then show ?thesis by (simp add: query_data_def)
qed

theorem empty_metrics_compile_witness:
  "\<exists>h. build_query ''events'' []  []
           [(''date'', (0, Field ''date'' None)), (''device'', (1, Field ''device_type'' None))]
           [] [] [(''wow'', ''date'')] [] = Inr (h, 0)
      \<and> query_data ''events'' [] []
           [(''date'', (0, Field ''date'' None)), (''device'', (1, Field ''device_type'' None))]
           [] [] [(''wow'', ''date'')] []
          = Inr \<lparr>fr_store = h, fr_query = 0,
                 fr_columns = select_aliases (h ! 0),
                 fr_index = groupby_aliases (h ! 0)\<rparr>"
proof -
  have "\<forall>ref \<in> set [(''wow'', ''date'')].
          reference_resolves
            [(''date'', (0::nat, Field ''date'' None)), (''device'', (1, Field ''device_type'' None))]
            ref"
    by (simp add: reference_resolves_def get_reference_mappers_def reference_criterion_def)
  from empty_metrics_compile [OF this] show ?thesis .
qed

text \<open>
  C6, as the claim states it, fails: with the rollup key \<open>region\<close>, which is not a
  dimension of the request, \<open>_build_query\<close> raises nothing and returns a query.
\<close>

theorem unknown_rollup_key_counterexample:
  "build_query ''events'' [] [(''clicks'', Func ''SUM'' [Field ''clicks'' None])]
     [(''date'', (0, Field ''date'' None))] [] [] [] [''region'']
   = Inr ([\<lparr>q_from = Table ''events'', q_joins = [],
            q_selects = [Alias (Field ''date'' None) ''date'',
                         Alias (Func ''SUM'' [Field ''clicks'' None]) ''clicks''],
            q_groupbys = [Alias (Field ''date'' None) ''date''],
            q_rollups = [],
            q_orderbys = [Alias (Field ''date'' None) ''date''],
            q_wheres = [], q_havings = []\<rparr>], 0)"
  by (simp add: build_query_def base_query_eq order_and_filter_def
        qorderby_def update_def Let_def dx_of_def rx_of_def)

lemma dx_of_restrict:
  "dx_of dimensions (filter (\<lambda>key. key \<in> fst ` set dimensions) rollup) = dx_of dimensions rollup"
proof -
  have "filter (\<lambda>(key, dimension). key \<notin> set (filter (\<lambda>key. key \<in> fst ` set dimensions) rollup))
          dimensions
        = filter (\<lambda>(key, dimension). key \<notin> set rollup) dimensions"
    by (rule filter_cong) force+
  then show ?thesis by (simp add: dx_of_def)
qed

lemma rx_of_restrict:
  "rx_of dimensions (filter (\<lambda>key. key \<in> fst ` set dimensions) rollup) = rx_of dimensions rollup"
proof -
  have "filter (\<lambda>(key, dimension). key \<in> set (filter (\<lambda>key. key \<in> fst ` set dimensions) rollup))
          dimensions
        = filter (\<lambda>(key, dimension). key \<in> set rollup) dimensions"
    by (rule filter_cong) force+
  then show ?thesis by (simp add: rx_of_def)
qed

lemma order_and_filter_restrict:
  "order_and_filter h q dimensions mfilters dfilters
     (filter (\<lambda>key. key \<in> fst ` set dimensions) rollup)
   = order_and_filter h q dimensions mfilters dfilters rollup"
  by (simp add: order_and_filter_def dx_of_restrict rx_of_restrict)

text \<open>
  C6, amended. A rollup key that is not a dimension key of the request is ignored: the
  compilation gives the same result, error or query, as for the rollup list without the
  keys that are not dimension keys.
\<close>

theorem unknown_rollup_keys_ignored:
  "build_query table joins metrics dimensions mfilters dfilters references rollup
   = build_query table joins metrics dimensions mfilters dfilters references
       (filter (\<lambda>key. key \<in> fst ` set dimensions) rollup)"
  by (simp add: build_query_def base_query_eq order_and_filter_restrict dx_of_restrict
        rx_of_restrict split: sum.splits)

section \<open>The schemas of a unique dimension\<close>

lemma str_nat_digit: "n < 10 \<Longrightarrow> str_nat n = [''0123456789'' ! n]"
  by (simp add: str_nat.simps)

text \<open>
  C9. A unique dimension with \<open>k\<close> id fields expands to \<open>k + 1\<close> pairs: at each position
  \<open>i\<close> below \<open>k\<close> the key \<open>{key}_id{i}\<close> with the \<open>i\<close>-th id field, and last the key
  \<open>{key}_label\<close> with the label field.
\<close>

theorem unique_dimension_schemas:
  "\<exists>pairs. schemas (UniqueDimension_init key (Some label_field) (Some id_fields)) = Inr pairs
      \<and> length pairs = length id_fields + 1
      \<and> (\<forall>i < length id_fields. pairs ! i = (key @ ''_id'' @ str_nat i, id_fields ! i))
      \<and> pairs ! length id_fields = (key @ ''_label'', label_field)
      \<and> last pairs = (key @ ''_label'', label_field)"
  by (simp add: schemas_def UniqueDimension_init_def nth_append nth_enumerate_eq)

theorem unique_dimension_schemas_witness:
  "\<exists>pairs.
     schemas (UniqueDimension_init ''account'' (Some (Field ''account_name'' None))
                (Some [Field ''account_id'' None, Field ''network_id'' None])) = Inr pairs
     \<and> length pairs = 3
     \<and> pairs ! 0 = (''account_id0'', Field ''account_id'' None)
     \<and> pairs ! 1 = (''account_id1'', Field ''network_id'' None)
     \<and> pairs ! 2 = (''account_label'', Field ''account_name'' None)"
proof -
  let ?ids = "[Field ''account_id'' None, Field ''network_id'' None]"
  from unique_dimension_schemas [of "''account''" "Field ''account_name'' None" ?ids]
  obtain pairs where
    s: "schemas (UniqueDimension_init ''account'' (Some (Field ''account_name'' None))
                   (Some ?ids)) = Inr pairs"
    and l: "length pairs = length ?ids + 1"
    and i: "\<forall>i < length ?ids. pairs ! i = (''account'' @ ''_id'' @ str_nat i, ?ids ! i)"
    and k: "pairs ! length ?ids = (''account'' @ ''_label'', Field ''account_name'' None)"
    by blast
  from i have "pairs ! 0 = (''account_id0'', Field ''account_id'' None)"
    by (simp add: str_nat_digit)
  moreover from i have "pairs ! 1 = (''account_id1'', Field ''network_id'' None)"
    by (simp add: str_nat_digit)
  moreover from k have "pairs ! 2 = (''account_label'', Field ''account_name'' None)"
    by (simp add: numeral_2_eq_2)
  moreover from l have "length pairs = 3" by simp
  ultimately show ?thesis using s by blast
qed

section \<open>Filters and the reference queries\<close>

lemma tbl_addrs_shift: "tbl_addrs (shift_tbl n t) = map (\<lambda>c. c + n) (tbl_addrs t)"
  by (cases t) simp_all

lemma subquery_addrs_shift:
  "subquery_addrs (shift_query n x) = map (\<lambda>c. c + n) (subquery_addrs x)"
  by (simp add: subquery_addrs_def shift_query_def tbl_addrs_shift map_concat comp_def
        case_prod_unfold)

lemma add_reference_unfiltered:
  assumes ok: "add_reference h q ms ds (rk, dk) = Inr h'" and q: "q < length h"
    and inv: "unfiltered q h"
  shows "unfiltered q h'"
proof -
  from ok q obtain cf ff cx where
    len: "length h' = 2 * length h"
    and outer: "h' ! q = (h ! q)\<lparr>q_joins := q_joins (h ! q) @ [(SubQuery (q + length h), None, cx)],
                      q_selects := q_selects (h ! q)
                        @ reference_dimension_columns (q + length h) ds rk
                        @ reference_metric_columns ff (q + length h) ms rk\<rparr>"
    and old: "\<And>a. a < length h \<Longrightarrow> a \<noteq> q \<Longrightarrow> h' ! a = h ! a"
    and new: "\<And>a. a < length h \<Longrightarrow> h' ! (a + length h) = shift_query (length h) (h ! a)"
    by (rule add_reference_props) blast
  have at: "q_wheres (h ! a) = [] \<and> q_havings (h ! a) = [] \<and>
        (\<forall>b \<in> set (subquery_addrs (h ! a)). b \<noteq> q \<and> b < length h)" if "a < length h" for a
    using inv that by (simp add: unfiltered_def)
  have "q_wheres (h' ! a) = [] \<and> q_havings (h' ! a) = [] \<and>
        (\<forall>b \<in> set (subquery_addrs (h' ! a)). b \<noteq> q \<and> b < length h')" if a: "a < length h'" for a
  proof -
    consider "a = q" | "a < length h" "a \<noteq> q" | "length h \<le> a"
      by linarith
    then show ?thesis
    proof cases
      case 1
      have "subquery_addrs (h' ! q) = subquery_addrs (h ! q) @ [q + length h]"
        by (simp add: outer subquery_addrs_def)
      with at [OF q] q show ?thesis by (auto simp: 1 outer len)
    next
      case 2
      with at [of a] old [of a] show ?thesis by (auto simp: len)
    next
      case 3
      define b where "b = a - length h"
      have b: "b < length h" and ab: "a = b + length h"
        using 3 a len by (simp_all add: b_def)
      have w: "q_wheres (h' ! a) = []" "q_havings (h' ! a) = []"
        using new [OF b] at [OF b] by (simp_all add: ab shift_query_def)
      have s: "subquery_addrs (h' ! a) = map (\<lambda>c. c + length h) (subquery_addrs (h ! b))"
        using new [OF b] by (simp add: ab subquery_addrs_shift)
      from at [OF b] q have "\<forall>c \<in> set (subquery_addrs (h' ! a)). c \<noteq> q \<and> c < length h'"
        by (auto simp: s len)
      with w show ?thesis by simp
    qed
  qed
  then show ?thesis by (simp add: unfiltered_def)
qed

lemma add_references_unfiltered:
  "add_references h q ms ds refs = Inr h' \<Longrightarrow> q < length h \<Longrightarrow> unfiltered q h \<Longrightarrow>
     unfiltered q h'"
proof (induction refs arbitrary: h)
  case Nil
  then show ?case by simp
next
  case (Cons ref refs)
  obtain rk dk where ref: "ref = (rk, dk)" by (cases ref)
  from Cons.prems obtain h1 where
    s: "add_reference h q ms ds (rk, dk) = Inr h1" and r: "add_references h1 q ms ds refs = Inr h'"
    by (auto simp: ref split: sum.splits)
  from s Cons.prems(2) have "length h1 = 2 * length h"
    by (rule add_reference_props)
  then have q1: "q < length h1" using Cons.prems(2) by simp
  from add_reference_unfiltered [OF s Cons.prems(2) Cons.prems(3)]
  have "unfiltered q h1" .
  from Cons.IH [OF r q1 this] show ?case .
qed

lemma table_joins_no_addrs:
  "concat (map (\<lambda>(table, how, criterion). tbl_addrs table)
               (map (\<lambda>(join_table, criterion, join_type).
                       (Table join_table, Some join_type, criterion)) joins)) = []"
  by (induction joins) (simp_all add: case_prod_unfold)

lemma base_object_addrs:
  "subquery_addrs \<lparr>q_from = Table table,
        q_joins = map (\<lambda>(join_table, criterion, join_type).
                         (Table join_table, Some join_type, criterion)) joins,
        q_selects = ss, q_groupbys = gs, q_rollups = rs,
        q_orderbys = [], q_wheres = [], q_havings = []\<rparr> = []"
  unfolding subquery_addrs_def using table_joins_no_addrs [of joins] by simp

lemma base_query_unfiltered:
  assumes "base_query table joins ms ds rollup = (h, q)"
  shows "unfiltered q h"
proof -
  from assms have h: "h = [\<lparr>q_from = Table table,
        q_joins = map (\<lambda>(join_table, criterion, join_type).
                         (Table join_table, Some join_type, criterion)) joins,
        q_selects = dx_of ds rollup @ rx_of ds rollup
                    @ map (\<lambda>(key, metric). as_alias metric key) ms,
        q_groupbys = dx_of ds rollup,
        q_rollups = rx_of ds rollup,
        q_orderbys = [], q_wheres = [], q_havings = []\<rparr>]"
    by (simp add: base_query_eq)
  show ?thesis
    unfolding unfiltered_def h by (simp add: base_object_addrs)
qed

text \<open>
  C10. In the compiled query the row filters and the aggregate filters are on the outer
  query only. Every other query object of the store, that is every reference query and
  every query under one, has no filter and does not refer to the outer query; the
  sub-queries of the outer query are such other objects.
\<close>

theorem filters_on_outer_query_only:
  assumes "build_query table joins metrics dimensions mfilters dfilters references rollup
             = Inr (h, query)"
  shows "q_wheres (h ! query) = dfilters \<and> q_havings (h ! query) = mfilters
       \<and> (\<forall>r \<in> set (subquery_addrs (h ! query)). r \<noteq> query \<and> r < length h)
       \<and> (\<forall>a < length h. a \<noteq> query \<longrightarrow>
            q_wheres (h ! a) = [] \<and> q_havings (h ! a) = []
            \<and> (\<forall>r \<in> set (subquery_addrs (h ! a)). r \<noteq> query \<and> r < length h))"
proof -
  obtain h0 where b: "base_query table joins metrics dimensions rollup = (h0, 0)"
    and h0: "length h0 = 1"
    by (simp add: base_query_eq)
  from assms b obtain h1 where
    r: "add_references h0 0 metrics dimensions references = Inr h1"
    and h: "h = order_and_filter h1 0 dimensions mfilters dfilters rollup"
    and query: "query = 0"
    by (auto simp: build_query_def split: sum.splits)
  have q0: "0 < length h0" using h0 by simp
  have q1: "0 < length h1" using add_references_length [OF r q0] h0 by auto
  have inv: "unfiltered 0 h1"
    using r q0 base_query_unfiltered [OF b] by (rule add_references_unfiltered)
  have fin: "h ! 0 = (h1 ! 0)\<lparr>q_orderbys := q_orderbys (h1 ! 0) @ dx_of dimensions rollup @ rx_of dimensions rollup,
                 q_wheres := q_wheres (h1 ! 0) @ dfilters,
                 q_havings := q_havings (h1 ! 0) @ mfilters\<rparr>"
    unfolding h using q1 by (rule order_and_filter_same)
  have other: "h ! a = h1 ! a" if "a \<noteq> 0" for a
    unfolding h using that by (rule order_and_filter_other)
  have len: "length h = length h1" by (simp add: h)
  have sub: "subquery_addrs (h ! 0) = subquery_addrs (h1 ! 0)"
    by (simp add: fin subquery_addrs_def)
  from inv q1 have o: "q_wheres (h1 ! 0) = []" "q_havings (h1 ! 0) = []"
    "\<forall>b \<in> set (subquery_addrs (h1 ! 0)). b \<noteq> 0 \<and> b < length h1"
    unfolding unfiltered_def by blast+
  have 1: "q_wheres (h ! query) = dfilters \<and> q_havings (h ! query) = mfilters"
    by (simp add: query fin o)
  have 2: "\<forall>r \<in> set (subquery_addrs (h ! query)). r \<noteq> query \<and> r < length h"
    using o(3) by (simp add: query sub len)
  have 3: "\<forall>a < length h. a \<noteq> query \<longrightarrow>
            q_wheres (h ! a) = [] \<and> q_havings (h ! a) = []
            \<and> (\<forall>r \<in> set (subquery_addrs (h ! a)). r \<noteq> query \<and> r < length h)"
  proof (intro allI impI)
    fix a
    assume a: "a < length h" and n: "a \<noteq> query"
    from n have a0: "a \<noteq> 0" by (simp add: query)
    from a have a1: "a < length h1" by (simp add: len)
    from inv a1 have "q_wheres (h1 ! a) = [] \<and> q_havings (h1 ! a) = []
            \<and> (\<forall>r \<in> set (subquery_addrs (h1 ! a)). r \<noteq> 0 \<and> r < length h1)"
      unfolding unfiltered_def by blast
    then show "q_wheres (h ! a) = [] \<and> q_havings (h ! a) = []
            \<and> (\<forall>r \<in> set (subquery_addrs (h ! a)). r \<noteq> query \<and> r < length h)"
      unfolding other [OF a0] len query .
  qed
  from 1 2 3 show ?thesis by blast
qed

theorem filters_on_outer_query_only_witness:
  "\<exists>h query.
     build_query ''events'' [] [(''clicks'', Func ''SUM'' [Field ''clicks'' None])]
       [(''date'', (0, Field ''date'' None))]
       [TEq (Func ''SUM'' [Field ''clicks'' None]) (Lit 10)]
       [TEq (Field ''device'' None) (Lit 1)]
       [(''wow'', ''date'')] [] = Inr (h, query)
     \<and> q_wheres (h ! query) = [TEq (Field ''device'' None) (Lit 1)]
     \<and> q_havings (h ! query) = [TEq (Func ''SUM'' [Field ''clicks'' None]) (Lit 10)]
     \<and> (\<forall>r \<in> set (subquery_addrs (h ! query)). r \<noteq> query \<and> r < length h)
     \<and> (\<forall>a < length h. a \<noteq> query \<longrightarrow>
            q_wheres (h ! a) = [] \<and> q_havings (h ! a) = []
            \<and> (\<forall>r \<in> set (subquery_addrs (h ! a)). r \<noteq> query \<and> r < length h))"
proof -
  have "\<forall>ref \<in> set [(''wow'', ''date'')].
          reference_resolves [(''date'', (0::nat, Field ''date'' None))] ref"
    by (simp add: reference_resolves_def get_reference_mappers_def reference_criterion_def)
  from build_query_succeeds [OF this]
  obtain h where b: "build_query ''events'' [] [(''clicks'', Func ''SUM'' [Field ''clicks'' None])]
       [(''date'', (0, Field ''date'' None))]
       [TEq (Func ''SUM'' [Field ''clicks'' None]) (Lit 10)]
       [TEq (Field ''device'' None) (Lit 1)]
       [(''wow'', ''date'')] [] = Inr (h, 0)"
    by blast
  from filters_on_outer_query_only [OF b] b show ?thesis by blast
qed

section \<open>The copy and later updates of the outer query\<close>

lemma mutate_length [simp]: "length (mutate a h m) = length h"
  by (cases m) simp_all


lemma mutations_length [simp]: "length (foldl (mutate a) h ms) = length h"
  by (induction ms arbitrary: h) simp_all





text \<open>Without the copy the same updates do reach a query that is joined under its own
  address: an update of a query changes the structure under that address.\<close>

lemma shared_query_changes:
  assumes "query < length h"
  shows "unfold_query (Suc n) (mutate query h (MWhere criterion)) query
           \<noteq> unfold_query (Suc n) h query"
proof -
  have "q_wheres (mutate query h (MWhere criterion) ! query) \<noteq> q_wheres (h ! query)"
    using assms by (simp add: builders_same)
  then have "mutate query h (MWhere criterion) ! query \<noteq> h ! query" by metis
  with assms show ?thesis by simp
qed


lemma unfold_query_region:
  assumes "\<And>a. a \<in> S \<Longrightarrow>
             a < length h1 \<and> a < length h2 \<and> h2 ! a = h1 ! a
             \<and> set (subquery_addrs (h1 ! a)) \<subseteq> S"
  shows "a \<in> S \<Longrightarrow> unfold_query n h2 a = unfold_query n h1 a"
proof (induction n arbitrary: a)
  case 0
  show ?case by simp
next
  case (Suc n)
  from assms [OF Suc.prems] have
    l: "a < length h1" "a < length h2" and e: "h2 ! a = h1 ! a"
    and s: "set (subquery_addrs (h1 ! a)) \<subseteq> S"
    by simp_all
  from s Suc.IH have "map (unfold_query n h2) (subquery_addrs (h1 ! a))
        = map (unfold_query n h1) (subquery_addrs (h1 ! a))"
    by auto
  with l e show ?case by simp
qed

lemma add_references_frame:
  "add_references h q ms ds refs = Inr h' \<Longrightarrow> q < length h \<Longrightarrow> a < length h \<Longrightarrow> a \<noteq> q \<Longrightarrow>
     h' ! a = h ! a"
proof (induction refs arbitrary: h)
  case Nil
  then show ?case by simp
next
  case (Cons ref refs)
  obtain rk dk where ref: "ref = (rk, dk)" by (cases ref)
  from Cons.prems obtain h1 where
    s: "add_reference h q ms ds (rk, dk) = Inr h1" and r: "add_references h1 q ms ds refs = Inr h'"
    by (auto simp: ref split: sum.splits)
  from s Cons.prems(2) obtain cf ff cx where
    len: "length h1 = 2 * length h"
    and old: "\<And>a. a < length h \<Longrightarrow> a \<noteq> q \<Longrightarrow> h1 ! a = h ! a"
    by (rule add_reference_props) blast
  from len Cons.prems have "q < length h1" "a < length h1" by simp_all
  from Cons.IH [OF r this Cons.prems(4)] old [OF Cons.prems(3) Cons.prems(4)]
  show ?case by simp
qed

text \<open>
  In \<open>_build_query\<close> itself: the structure under a reference query, as it is after the
  pass of the loop that copied and joined it, is the structure under it in the compiled
  query, whatever the later passes, the ordering and the filters add to the outer query.
\<close>

lemma reference_query_fixed_by_build:
  assumes step: "add_reference h q ms ds (rk, dk) = Inr h1"
    and q: "q < length h" and inv: "unfiltered q h"
    and rest: "add_references h1 q ms ds refs = Inr h2"
  shows "h1 ! (q + length h) = shift_query (length h) (h ! q)"
    and "unfold_query n (order_and_filter h2 q ds mfilters dfilters rollup) (q + length h)
           = unfold_query n h1 (q + length h)"
proof -
  from step q obtain cf ff cx where
    len: "length h1 = 2 * length h"
    and new: "\<And>a. a < length h \<Longrightarrow> h1 ! (a + length h) = shift_query (length h) (h ! a)"
    by (rule add_reference_props) blast
  show "h1 ! (q + length h) = shift_query (length h) (h ! q)"
    using q by (rule new)
  have q1: "q < length h1" using q len by simp
  have l2: "length h1 \<le> length h2" using rest q1 by (rule add_references_length)
  let ?h3 = "order_and_filter h2 q ds mfilters dfilters rollup"
  let ?S = "{length h ..< 2 * length h}"
  have "unfold_query n ?h3 a = unfold_query n h1 a" if "a \<in> ?S" for a
    using _ that
  proof (rule unfold_query_region)
    fix a assume a: "a \<in> ?S"
    define c where "c = a - length h"
    have c: "c < length h" and ac: "a = c + length h"
      using a by (auto simp: c_def)
    have aq: "a \<noteq> q" using a q by simp
    have a1: "a < length h1" using a len by simp
    have "?h3 ! a = h2 ! a" using aq by (rule order_and_filter_other)
    also have "\<dots> = h1 ! a" using rest q1 a1 aq by (rule add_references_frame)
    finally have e: "?h3 ! a = h1 ! a" .
    have "set (subquery_addrs (h ! c)) \<subseteq> {..< length h}"
      using inv c by (auto simp: unfiltered_def)
    then have "set (subquery_addrs (h1 ! a)) \<subseteq> ?S"
      unfolding ac new [OF c] subquery_addrs_shift by auto
    with e a1 l2 show "a < length h1 \<and> a < length ?h3 \<and> ?h3 ! a = h1 ! a
             \<and> set (subquery_addrs (h1 ! a)) \<subseteq> ?S"
      by simp
  qed
  then show "unfold_query n ?h3 (q + length h) = unfold_query n h1 (q + length h)"
    using q by simp
qed

end
